theory Spec2Isabelle
  imports Main "HOL-Library.Word"
begin

section \<open>Byte arrays (GByteArray) and block removal\<close>

text \<open>
  A \<open>GByteArray\<close> is modelled by its valid contents \<open>data[0..len)\<close>, a list of bytes.
  Array lengths are \<open>guint\<close> in the source; the model uses \<open>nat\<close> and so describes arrays
  shorter than \<open>2^31\<close> bytes, where none of the index computations wraps.
\<close>

type_synonym bytes = string

datatype error = AssertFailed

text \<open>\<open>g_memmove (mem + dst, mem + src, n)\<close> inside one block of memory, \<open>dst \<le> src\<close>.\<close>

definition g_memmove :: "bytes \<Rightarrow> nat \<Rightarrow> nat \<Rightarrow> nat \<Rightarrow> bytes" where
  "g_memmove mem dst src n = take dst mem @ take n (drop src mem) @ drop (dst + n) mem"

text \<open>\<open>g_byte_array_set_size\<close>, for the calls of this file, which never grow the array.\<close>

definition g_byte_array_set_size :: "bytes \<Rightarrow> nat \<Rightarrow> bytes" where
  "g_byte_array_set_size arr n = take n arr"

definition g_byte_array_append :: "bytes \<Rightarrow> bytes \<Rightarrow> bytes" where
  "g_byte_array_append arr data = arr @ data"

text \<open>
  \<open>remove_block_at_index\<close>: \<open>g_return_if_fail (length != 0)\<close> returns with the array
  untouched; a failed \<open>g_assert\<close> aborts the program, which is the value \<open>Inl AssertFailed\<close>.
\<close>

definition remove_block_at_index :: "bytes \<Rightarrow> nat \<Rightarrow> nat \<Rightarrow> error + bytes" where
  "remove_block_at_index arr offset len =
     (if len = 0 then Inr arr
      else if \<not> (length arr \<ge> offset + len) then Inl AssertFailed
      else Inr (g_byte_array_set_size
                  (g_memmove arr offset (offset + len) (length arr - offset - len))
                  (length arr - len)))"

section \<open>Substring search (soup-misc.c)\<close>

text \<open>
  \<open>soup_substring_index (str, len, substr)\<close>: \<open>str\<close> is the memory from the pointer on,
  \<open>len\<close> the signed length passed with it. The loop runs \<open>i = 0 .. len - sublen\<close>.
\<close>

function soup_substring_index_loop :: "nat \<Rightarrow> bytes \<Rightarrow> int \<Rightarrow> bytes \<Rightarrow> int" where
  "soup_substring_index_loop i str len substr =
     (if int i \<le> len - int (length substr)
      then (if str ! i = substr ! 0 \<and> take (length substr) (drop i str) = substr
            then int i
            else soup_substring_index_loop (Suc i) str len substr)
      else - 1)"
  by pat_completeness auto
termination
  by (relation "measure (\<lambda>(i, str, len, substr). nat (len - int (length substr) + 1 - int i))")
     auto

declare soup_substring_index_loop.simps [simp del]

definition soup_substring_index :: "bytes \<Rightarrow> int \<Rightarrow> bytes \<Rightarrow> int" where
  "soup_substring_index str len substr = soup_substring_index_loop 0 str len substr"

section \<open>Hexadecimal chunk lengths\<close>

text \<open>The \<open>ctype.h\<close> classifiers of the C locale, on byte codes.\<close>

definition isdigit :: "char \<Rightarrow> bool" where
  "isdigit c = (48 \<le> (of_char c :: nat) \<and> (of_char c :: nat) \<le> 57)"

definition isxdigit :: "char \<Rightarrow> bool" where
  "isxdigit c = (isdigit c \<or> (65 \<le> (of_char c :: nat) \<and> (of_char c :: nat) \<le> 70)
                          \<or> (97 \<le> (of_char c :: nat) \<and> (of_char c :: nat) \<le> 102))"

definition tolower :: "char \<Rightarrow> nat" where
  "tolower c = (if 65 \<le> (of_char c :: nat) \<and> (of_char c :: nat) \<le> 90
                then of_char c + 32 else of_char c)"

text \<open>The first loop of \<open>decode_hex\<close>: count the leading hex digits. The end of the list
  stands for the first byte that is no hex digit.\<close>

fun count_xdigits :: "bytes \<Rightarrow> nat" where
  "count_xdigits [] = 0"
| "count_xdigits (c # cs) = (if isxdigit c then Suc (count_xdigits cs) else 0)"

text \<open>The value one digit contributes, a \<open>gint\<close>: \<open>*src - 0x30\<close> or \<open>tolower (*src) - 0x57\<close>.\<close>

definition hex_term :: "char \<Rightarrow> 32 word" where
  "hex_term c = (if isdigit c then word_of_nat (of_char c) - 0x30
                 else word_of_nat (tolower c) - 0x57)"

text \<open>
  The second loop, \<open>for (j = *width - 1; j + 1; j--)\<close>; the counter of the model is \<open>j + 1\<close>.
  \<open>gint\<close> is 32 bits wide: the sum wraps, and \<open>x << (4*j)\<close> is \<open>push_bit (4*j) x\<close>. (For
  \<open>4*j \<ge> 32\<close>, that is more than 8 digits, C leaves the shift undefined; \<open>push_bit\<close> gives 0.)
\<close>

fun decode_hex_loop :: "bytes \<Rightarrow> nat \<Rightarrow> 32 word \<Rightarrow> 32 word" where
  "decode_hex_loop src 0 new_len = new_len"
| "decode_hex_loop [] (Suc j) new_len = new_len"
| "decode_hex_loop (c # cs) (Suc j) new_len =
     decode_hex_loop cs j (new_len + push_bit (4 * j) (hex_term c))"

text \<open>\<open>decode_hex\<close> returns the pair of its result and of \<open>*width\<close>.\<close>

definition decode_hex :: "bytes \<Rightarrow> 32 word \<times> nat" where
  "decode_hex src = (let width = count_xdigits src in (decode_hex_loop src width 0, width))"

text \<open>The claim's reading of a digit string: a hexadecimal numeral, letters of either case.\<close>

definition hex_digit_value :: "char \<Rightarrow> nat" where
  "hex_digit_value c =
     (let n = (of_char c :: nat) in
      if 48 \<le> n \<and> n \<le> 57 then n - 48
      else if 97 \<le> n \<and> n \<le> 102 then n - 97 + 10
      else if 65 \<le> n \<and> n \<le> 70 then n - 65 + 10
      else 0)"

definition hex_numeral_value :: "bytes \<Rightarrow> nat" where
  "hex_numeral_value ds = foldl (\<lambda>acc c. 16 * acc + hex_digit_value c) 0 ds"

section \<open>The chunked decoder\<close>

definition CRLF :: bytes where
  "CRLF = [CHR 0x0D, CHR 0x0A]"

record SoupTransferChunkState =
  cs_len :: nat
  cs_idx :: nat

text \<open>
  One pass through the body of the \<open>while (TRUE)\<close> loop of \<open>decode_chunk\<close>: \<open>Break\<close> for
  either \<open>break\<close>, \<open>Abort\<close> for a failed \<open>g_assert\<close>, \<open>Next\<close> with the new chunk state, the
  new array and whether this pass set \<open>ret = TRUE\<close>. The pointer \<open>i\<close> stays at offset
  \<open>idx + len\<close> of the array's memory, which the removal of the two bytes there moves the
  hex digits to. The searches before guarantee a CRLF ahead of \<open>i\<close> for the opening chunk
  and after a chunk body, so the digits that \<open>decode_hex\<close> reads end inside the array.
\<close>

datatype chunk_step =
    Break
  | Abort error
  | Next SoupTransferChunkState bytes bool

definition decode_chunk_step :: "SoupTransferChunkState \<Rightarrow> bytes \<Rightarrow> chunk_step" where
  "decode_chunk_step s arr =
     (if cs_idx s + cs_len s + 5 > length arr then Break
      else if (if cs_len s \<noteq> 0
               then soup_substring_index (drop (cs_idx s + cs_len s + 2) arr)
                      (int (length arr) - int (cs_idx s) - int (cs_len s) - 2) CRLF \<le> 0
               else soup_substring_index arr (int (length arr)) CRLF \<le> 0) then Break
      else
        case (if cs_len s \<noteq> 0 then remove_block_at_index arr (cs_idx s + cs_len s) 2
              else Inr arr) of
          Inl e \<Rightarrow> Abort e
        | Inr arr1 \<Rightarrow>
            (case decode_hex (drop (cs_idx s + cs_len s) arr1) of (new_len, width) \<Rightarrow>
               if \<not> (sint new_len \<ge> 0) then Abort AssertFailed
               else
                 let idx' = cs_idx s + cs_len s;
                     len' = nat (sint new_len);
                     len1 = int width + soup_substring_index (drop (idx' + width) arr1)
                                          (int (length arr1) - int idx' - int width) CRLF;
                     len2 = (if len' = 0 then len1 + 2 else len1)
                 in (case remove_block_at_index arr1 idx' (nat (len2 + 2)) of
                       Inl e \<Rightarrow> Abort e
                     | Inr arr2 \<Rightarrow> Next \<lparr>cs_len = len', cs_idx = idx'\<rparr> arr2 (len' = 0))))"

lemma soup_substring_index_loop_ge: "- 1 \<le> soup_substring_index_loop i str len substr"
proof (induction i str len substr rule: soup_substring_index_loop.induct)
  case (1 i str len substr)
  then show ?case
    by (subst soup_substring_index_loop.simps) auto
qed

lemma soup_substring_index_ge: "- 1 \<le> soup_substring_index str len substr"
  by (simp add: soup_substring_index_def soup_substring_index_loop_ge)

lemma remove_block_at_index_length:
  "remove_block_at_index arr offset len = Inr arr' \<Longrightarrow> len \<noteq> 0 \<Longrightarrow> length arr' < length arr"
  by (auto simp: remove_block_at_index_def g_byte_array_set_size_def split: if_splits)

lemma nat_substring_pos:
  "0 < int w + (soup_substring_index a b c + 2)"
  "0 < int w + (soup_substring_index a b c + 4)"
  using soup_substring_index_ge [of a b c] by auto

lemma decode_chunk_step_shrinks:
  assumes "decode_chunk_step s arr = Next s' arr' r"
  shows "length arr' < length arr"
  using assms unfolding decode_chunk_step_def Let_def
  by (auto split: if_splits sum.splits prod.splits
      dest!: remove_block_at_index_length simp: add.assoc nat_substring_pos)

text \<open>The loop, with \<open>*datalen\<close> and \<open>ret\<close> as accumulators; every pass shortens the array.\<close>

function decode_chunk_loop ::
  "SoupTransferChunkState \<Rightarrow> bytes \<Rightarrow> nat \<Rightarrow> bool
   \<Rightarrow> error + (bool \<times> SoupTransferChunkState \<times> bytes \<times> nat)" where
  "decode_chunk_loop s arr datalen ret =
     (case decode_chunk_step s arr of
        Break \<Rightarrow> Inr (ret, s, arr, datalen)
      | Abort e \<Rightarrow> Inl e
      | Next s' arr' fin \<Rightarrow>
          decode_chunk_loop s' arr' (datalen + cs_len s) (if fin then True else ret))"
  by pat_completeness auto
termination
  by (relation "measure (\<lambda>(s, arr, datalen, ret). length arr)")
     (auto dest: decode_chunk_step_shrinks)

declare decode_chunk_loop.simps [simp del]

text \<open>\<open>decode_chunk\<close> returns its result, the chunk state, the array and \<open>*datalen\<close>.\<close>

definition decode_chunk ::
  "SoupTransferChunkState \<Rightarrow> bytes
   \<Rightarrow> error + (bool \<times> SoupTransferChunkState \<times> bytes \<times> nat)" where
  "decode_chunk s arr = decode_chunk_loop s arr 0 False"

text \<open>
  The setting of claim C2: the parts of a byte sequence are appended to the array one after
  the other, \<open>decode_chunk\<close> runs after each append, the \<open>datalen\<close>s add up and the
  terminal-chunk flag is kept once raised.
\<close>

fun decode_chunk_feed ::
  "SoupTransferChunkState \<Rightarrow> bytes \<Rightarrow> bytes list \<Rightarrow> nat \<Rightarrow> bool
   \<Rightarrow> error + (bool \<times> SoupTransferChunkState \<times> bytes \<times> nat)" where
  "decode_chunk_feed s arr [] acc fin = Inr (fin, s, arr, acc)"
| "decode_chunk_feed s arr (p # ps) acc fin =
     (case decode_chunk s (g_byte_array_append arr p) of
        Inl e \<Rightarrow> Inl e
      | Inr (ret, s', arr', datalen) \<Rightarrow>
          decode_chunk_feed s' arr' ps (acc + datalen) (fin \<or> ret))"

definition chunked_hello :: bytes where
  "chunked_hello = ''5'' @ CRLF @ ''hello'' @ CRLF @ ''0'' @ CRLF @ CRLF"

section \<open>The reader\<close>

text \<open>
  Modelled from the spec: the enumerations \<open>SoupTransferEncoding\<close> and \<open>SoupTransferDone\<close>
  (also used under the name \<open>SoupTransferStatus\<close>) of \<open>soup-transfer.h\<close>, which is not among
  the sources; the constructors are the constants that \<open>soup-transfer.c\<close> uses.
\<close>

datatype SoupTransferEncoding =
    SOUP_TRANSFER_UNKNOWN
  | SOUP_TRANSFER_CHUNKED
  | SOUP_TRANSFER_CONTENT_LENGTH

datatype SoupTransferDone =
    SOUP_TRANSFER_END
  | SOUP_TRANSFER_CONTINUE

type_synonym SoupTransferStatus = SoupTransferDone

text \<open>
  What \<open>g_byte_array_free\<close> left of an array: still allocated, freed with its data segment
  (\<open>free_segment = TRUE\<close>), or freed with the segment left to the callback that holds it.
\<close>

datatype array_state = Allocated | FreedWithSegment | FreedKeepSegment

text \<open>
  The callbacks a reader invokes, in order, with their arguments: the trace of one handler
  run. \<open>ReadChunk\<close> carries the bytes of the \<open>SoupDataBuffer\<close> and its \<open>length\<close> field.
\<close>

datatype read_event =
    ReadHeadersDone bytes
  | ReadChunk bytes nat
  | ReadDone bytes
  | ReadError bool

text \<open>
  \<open>SoupReader\<close>. The callback types are those of \<open>soup-transfer.h\<close>, read off the calls in
  \<open>soup-transfer.c\<close>. A callback is \<open>None\<close> for a NULL pointer, or a function of its arguments
  and of \<open>user_data\<close> that returns its result, the values it stores through its
  out-parameters and the new \<open>user_data\<close>. \<open>read_tag\<close> and \<open>err_tag\<close> say whether the
  source of that id is still installed in the main loop; \<open>recv_buf_state\<close> and \<open>freed\<close>
  record what \<open>g_byte_array_free\<close> and \<open>g_free\<close> did. \<open>content_length\<close> is a \<open>guint\<close> that
  the code subtracts from, so it is a 32-bit word.
\<close>

record 'u SoupReader =
  read_tag :: bool
  err_tag :: bool
  callback_issued :: bool
  processing :: bool
  recv_buf :: bytes
  recv_buf_state :: array_state
  header_len :: nat
  overwrite_chunks :: bool
  encoding :: SoupTransferEncoding
  content_length :: "32 word"
  chunk_state :: SoupTransferChunkState
  headers_done_cb ::
    "(bytes \<Rightarrow> SoupTransferEncoding \<Rightarrow> 32 word \<Rightarrow> 'u
      \<Rightarrow> SoupTransferDone \<times> SoupTransferEncoding \<times> 32 word \<times> 'u) option"
  read_chunk_cb :: "(bytes \<Rightarrow> nat \<Rightarrow> 'u \<Rightarrow> SoupTransferDone \<times> 'u) option"
  read_done_cb :: "(bytes \<Rightarrow> 'u \<Rightarrow> 'u) option"
  error_cb :: "(bool \<Rightarrow> 'u \<Rightarrow> 'u) option"
  user_data :: 'u
  freed :: bool

definition soup_transfer_read_cancel :: "'u SoupReader \<Rightarrow> 'u SoupReader" where
  "soup_transfer_read_cancel r =
     (if processing r then r
      else r\<lparr>read_tag := False,
             err_tag := False,
             recv_buf_state := (if callback_issued r then FreedKeepSegment else FreedWithSegment),
             freed := True\<rparr>)"


text \<open>\<open>issue_final_callback\<close>: the buffer handed out is the array without the NUL just appended.\<close>

definition issue_final_callback :: "'u SoupReader \<Rightarrow> 'u SoupReader \<times> read_event list" where
  "issue_final_callback r =
     (let r1 = r\<lparr>recv_buf := g_byte_array_append (recv_buf r) [CHR 0x00]\<rparr> in
      case read_done_cb r1 of
        None \<Rightarrow> (r1, [])
      | Some cb \<Rightarrow>
          let buf = take (length (recv_buf r1) - 1) (recv_buf r1);
              r2 = r1\<lparr>callback_issued := True, processing := True\<rparr>;
              r3 = r2\<lparr>user_data := cb buf (user_data r2)\<rparr>
          in (r3\<lparr>processing := False\<rparr>, [ReadDone buf]))"

text \<open>\<open>soup_transfer_read_error_cb\<close>, the handler of hangup, error and invalid channel.\<close>

definition soup_transfer_read_error_cb ::
  "'u SoupReader \<Rightarrow> 'u SoupReader \<times> read_event list" where
  "soup_transfer_read_error_cb r =
     (let body_started = (length (recv_buf r) > header_len r) in
      if encoding r = SOUP_TRANSFER_UNKNOWN
      then (case issue_final_callback r of (r1, evs) \<Rightarrow> (soup_transfer_read_cancel r1, evs))
      else
        let r1 = r\<lparr>processing := True\<rparr>;
            (r2, evs) = (case error_cb r1 of
                           None \<Rightarrow> (r1, [])
                         | Some cb \<Rightarrow> (r1\<lparr>user_data := cb body_started (user_data r1)\<rparr>,
                                        [ReadError body_started]));
            r3 = r2\<lparr>processing := False\<rparr>
        in (soup_transfer_read_cancel r3, evs))"

text \<open>
  \<open>issue_chunk_callback\<close> returns the reader, \<open>*cancelled\<close> (left as it was when no
  callback runs) and the trace.
\<close>

definition issue_chunk_callback ::
  "'u SoupReader \<Rightarrow> bytes \<Rightarrow> nat \<Rightarrow> bool \<Rightarrow> 'u SoupReader \<times> bool \<times> read_event list" where
  "issue_chunk_callback r data len cancelled =
     (case read_chunk_cb r of
        None \<Rightarrow> (r, cancelled, [])
      | Some cb \<Rightarrow>
          if len = 0 then (r, cancelled, [])
          else
            let r1 = r\<lparr>callback_issued := True, processing := True\<rparr>;
                (cont, u) = cb (take len data) len (user_data r1);
                r2 = r1\<lparr>user_data := u, processing := False\<rparr>
            in (r2, cont = SOUP_TRANSFER_END, [ReadChunk (take len data) len]))"

text \<open>The three body steps return their result, the reader, \<open>*cancelled\<close> and the trace.\<close>

definition read_chunk ::
  "'u SoupReader \<Rightarrow> bool \<Rightarrow> error + (bool \<times> 'u SoupReader \<times> bool \<times> read_event list)" where
  "read_chunk r cancelled =
     (case decode_chunk (chunk_state r) (recv_buf r) of
        Inl e \<Rightarrow> Inl e
      | Inr (ret, s, arr, datalen) \<Rightarrow>
          let r1 = r\<lparr>chunk_state := s, recv_buf := arr\<rparr> in
          if datalen = 0 then Inr (ret, r1, cancelled, [])
          else
            (case issue_chunk_callback r1 (recv_buf r1) (cs_idx (chunk_state r1)) cancelled of
               (r2, cancelled', evs) \<Rightarrow>
                 if cancelled' then Inr (ret, r2, cancelled', evs)
                 else if overwrite_chunks r2
                 then (case remove_block_at_index (recv_buf r2) 0 (cs_idx (chunk_state r2)) of
                         Inl e \<Rightarrow> Inl e
                       | Inr arr' \<Rightarrow>
                           Inr (ret,
                                r2\<lparr>recv_buf := arr',
                                    chunk_state := (chunk_state r2)\<lparr>cs_idx := 0\<rparr>\<rparr>,
                                cancelled', evs))
                 else Inr (ret, r2, cancelled', evs)))"

definition read_content_length ::
  "'u SoupReader \<Rightarrow> bool \<Rightarrow> bool \<times> 'u SoupReader \<times> bool \<times> read_event list" where
  "read_content_length r cancelled =
     (case (if recv_buf r = [] then (r, cancelled, [])
            else (case issue_chunk_callback r (recv_buf r) (length (recv_buf r)) cancelled of
                    (r1, cancelled', evs) \<Rightarrow>
                      if cancelled' then (r1, cancelled', evs)
                      else if overwrite_chunks r1
                      then (r1\<lparr>content_length :=
                                  content_length r1 - word_of_nat (length (recv_buf r1)),
                                recv_buf := g_byte_array_set_size (recv_buf r1) 0\<rparr>,
                            cancelled', evs)
                      else (r1, cancelled', evs))) of
        (r2, cancelled', evs) \<Rightarrow>
          (content_length r2 = word_of_nat (length (recv_buf r2)), r2, cancelled', evs))"

definition read_unknown ::
  "'u SoupReader \<Rightarrow> bool \<Rightarrow> bool \<times> 'u SoupReader \<times> bool \<times> read_event list" where
  "read_unknown r cancelled =
     (case (if recv_buf r = [] then (r, cancelled, [])
            else (case issue_chunk_callback r (recv_buf r) (length (recv_buf r)) cancelled of
                    (r1, cancelled', evs) \<Rightarrow>
                      if cancelled' then (r1, cancelled', evs)
                      else if overwrite_chunks r1
                      then (r1\<lparr>recv_buf := g_byte_array_set_size (recv_buf r1) 0\<rparr>,
                            cancelled', evs)
                      else (r1, cancelled', evs))) of
        (r2, cancelled', evs) \<Rightarrow> (False, r2, cancelled', evs))"

text \<open>\<open>strncpy (dst, src, n)\<close>: the bytes before the first NUL, padded with NULs to \<open>n\<close>.\<close>

definition strncpy :: "bytes \<Rightarrow> nat \<Rightarrow> bytes" where
  "strncpy src n =
     (let s = takeWhile (\<lambda>c. c \<noteq> CHR 0x00) (take n src)
      in s @ replicate (n - length s) (CHR 0x00))"
text \<open>
  \<open>soup_transfer_read_cb\<close>, from the label \<open>PROCESS_READ\<close> on. The block under
  \<open>if (r->header_len == 0)\<close> leaves in one of three ways: \<open>return TRUE\<close> (no blank line yet),
  \<open>goto FINISH_READ\<close> (the callback returned \<open>SOUP_TRANSFER_END\<close>), or on to the body step.
\<close>

datatype 'u flow =
    ReturnTrue "'u SoupReader"
  | FinishRead "'u SoupReader"
  | Proceed "'u SoupReader"

definition read_headers :: "'u SoupReader \<Rightarrow> error + ('u flow \<times> read_event list)" where
  "read_headers r =
     (let index = soup_substring_index (recv_buf r) (int (length (recv_buf r))) (CRLF @ CRLF) in
      if index < 0 then Inr (ReturnTrue r, [])
      else
        let index = nat (index + 4) in
        case (case headers_done_cb r of
                None \<Rightarrow> (r, SOUP_TRANSFER_CONTINUE, [])
              | Some cb \<Rightarrow>
                  let str = strncpy (recv_buf r) index;
                      r1 = r\<lparr>processing := True\<rparr>;
                      (ret, enc, cl, u) = cb str (encoding r1) (content_length r1) (user_data r1);
                      r2 = r1\<lparr>encoding := enc, content_length := cl, user_data := u\<rparr>
                  in (r2\<lparr>processing := False\<rparr>, ret, [ReadHeadersDone str])) of
          (r3, ret, evs) \<Rightarrow>
            if ret = SOUP_TRANSFER_END then Inr (FinishRead r3, evs)
            else (case remove_block_at_index (recv_buf r3) 0 index of
                    Inl e \<Rightarrow> Inl e
                  | Inr arr \<Rightarrow> Inr (Proceed (r3\<lparr>recv_buf := arr, header_len := index\<rparr>), evs)))"

text \<open>
  The rest of \<open>PROCESS_READ\<close>: either the handler returns (\<open>Returned\<close>, with its result), or
  it sets \<open>total_read = 0\<close> and jumps to \<open>READ_AGAIN\<close>. The local \<open>cancelled\<close> is \<open>FALSE\<close>
  whenever control is here, since a \<open>TRUE\<close> value leaves through \<open>FINISH_READ\<close>.
\<close>

datatype 'u processed =
    Returned bool "'u SoupReader"
  | ReadAgainFrom "'u SoupReader"

definition process_read ::
  "'u SoupReader \<Rightarrow> nat \<Rightarrow> error + ('u processed \<times> read_event list)" where
  "process_read r total_read =
     (case (if header_len r = 0 then read_headers r else Inr (Proceed r, [])) of
        Inl e \<Rightarrow> Inl e
      | Inr (ReturnTrue r1, evs) \<Rightarrow> Inr (Returned True r1, evs)
      | Inr (FinishRead r1, evs) \<Rightarrow> Inr (Returned False (soup_transfer_read_cancel r1), evs)
      | Inr (Proceed r1, evs) \<Rightarrow>
          (case (if total_read = 0 then Inr (True, r1, False, [])
                 else (case encoding r1 of
                         SOUP_TRANSFER_CHUNKED \<Rightarrow> read_chunk r1 False
                       | SOUP_TRANSFER_CONTENT_LENGTH \<Rightarrow> Inr (read_content_length r1 False)
                       | SOUP_TRANSFER_UNKNOWN \<Rightarrow> Inr (read_unknown r1 False))) of
             Inl e \<Rightarrow> Inl e
           | Inr (read_done, r2, cancelled, evs2) \<Rightarrow>
               if cancelled
               then Inr (Returned False (soup_transfer_read_cancel r2), evs @ evs2)
               else if \<not> read_done then Inr (ReadAgainFrom r2, evs @ evs2)
               else (case issue_final_callback r2 of
                       (r3, evs3) \<Rightarrow>
                         Inr (Returned False (soup_transfer_read_cancel r3),
                              evs @ evs2 @ evs3))))"

text \<open>
  The channel is the list of what its next reads return: bytes with \<open>G_IO_ERROR_NONE\<close>,
  \<open>G_IO_ERROR_AGAIN\<close>, or another error. When the list is used up a read would block.
\<close>

datatype read_result = ReadOk bytes | ReadAgain | ReadErr

definition g_io_channel_read :: "read_result list \<Rightarrow> read_result \<times> read_result list" where
  "g_io_channel_read chan = (case chan of [] \<Rightarrow> (ReadAgain, []) | x # xs \<Rightarrow> (x, xs))"

text \<open>The three tests after the read, between \<open>READ_AGAIN\<close> and \<open>PROCESS_READ\<close>.\<close>

datatype read_action = Append bytes | ProcessRead | ReturnAgain | ChannelError

definition read_action :: "read_result \<Rightarrow> nat \<Rightarrow> read_action" where
  "read_action res total_read =
     (case res of
        ReadAgain \<Rightarrow> if total_read \<noteq> 0 then ProcessRead else ReturnAgain
      | ReadErr \<Rightarrow> if total_read \<noteq> 0 then ProcessRead else ChannelError
      | ReadOk bs \<Rightarrow> if bs \<noteq> [] then Append bs else ProcessRead)"

text \<open>
  The handler from \<open>READ_AGAIN\<close> on. It returns its result (\<open>TRUE\<close> keeps the watch), the
  reader, what is left of the channel, and the trace.
\<close>

function soup_transfer_read_cb_loop ::
  "'u SoupReader \<Rightarrow> read_result list \<Rightarrow> nat \<Rightarrow> read_event list
   \<Rightarrow> error + (bool \<times> 'u SoupReader \<times> read_result list \<times> read_event list)" where
  "soup_transfer_read_cb_loop r chan total_read evs =
     (case g_io_channel_read chan of
        (res, chan') \<Rightarrow>
          (case read_action res total_read of
             ReturnAgain \<Rightarrow> Inr (True, r, chan', evs)
           | ChannelError \<Rightarrow>
               (case soup_transfer_read_error_cb r of
                  (r1, evs1) \<Rightarrow> Inr (False, r1, chan', evs @ evs1))
           | Append bs \<Rightarrow>
               soup_transfer_read_cb_loop
                 (r\<lparr>recv_buf := g_byte_array_append (recv_buf r) bs\<rparr>)
                 chan' (total_read + length bs) evs
           | ProcessRead \<Rightarrow>
               (case process_read r total_read of
                  Inl e \<Rightarrow> Inl e
                | Inr (Returned b r1, evs1) \<Rightarrow> Inr (b, r1, chan', evs @ evs1)
                | Inr (ReadAgainFrom r1, evs1) \<Rightarrow>
                    soup_transfer_read_cb_loop r1 chan' 0 (evs @ evs1))))"
  by pat_completeness auto
termination
  by (relation "measure (\<lambda>(r, chan, total_read, evs).
                  2 * length chan + (if total_read = 0 then 0 else 1))")
     (auto simp: g_io_channel_read_def read_action_def
           split: list.splits read_result.splits if_splits)

declare soup_transfer_read_cb_loop.simps [simp del]

definition soup_transfer_read_cb ::
  "'u SoupReader \<Rightarrow> read_result list
   \<Rightarrow> error + (bool \<times> 'u SoupReader \<times> read_result list \<times> read_event list)" where
  "soup_transfer_read_cb r chan = soup_transfer_read_cb_loop r chan 0 []"

text \<open>\<open>soup_transfer_read\<close>: \<open>g_new0\<close> zeroes every field that is not set.\<close>

definition soup_transfer_read ::
  "bool
   \<Rightarrow> (bytes \<Rightarrow> SoupTransferEncoding \<Rightarrow> 32 word \<Rightarrow> 'u
        \<Rightarrow> SoupTransferDone \<times> SoupTransferEncoding \<times> 32 word \<times> 'u) option
   \<Rightarrow> (bytes \<Rightarrow> nat \<Rightarrow> 'u \<Rightarrow> SoupTransferDone \<times> 'u) option
   \<Rightarrow> (bytes \<Rightarrow> 'u \<Rightarrow> 'u) option
   \<Rightarrow> (bool \<Rightarrow> 'u \<Rightarrow> 'u) option
   \<Rightarrow> 'u \<Rightarrow> 'u SoupReader" where
  "soup_transfer_read overwrite hd_cb ch_cb dn_cb er_cb u =
     \<lparr>read_tag = True, err_tag = True, callback_issued = False, processing = False,
      recv_buf = [], recv_buf_state = Allocated, header_len = 0,
      overwrite_chunks = overwrite, encoding = SOUP_TRANSFER_UNKNOWN, content_length = 0,
      chunk_state = \<lparr>cs_len = 0, cs_idx = 0\<rparr>,
      headers_done_cb = hd_cb, read_chunk_cb = ch_cb, read_done_cb = dn_cb, error_cb = er_cb,
      user_data = u, freed = False\<rparr>"



text \<open>A body-chunk callback that was handed at least one byte.\<close>

fun nonempty_chunk :: "read_event \<Rightarrow> bool" where
  "nonempty_chunk (ReadChunk d n) = (n \<noteq> 0)"
| "nonempty_chunk _ = True"

section \<open>The writer\<close>

datatype write_event =
    WriteHeadersDone
  | WriteChunkRequested
  | WriteDone
  | WriteError bool

text \<open>
  \<open>SoupWriter\<close>, its fields prefixed with \<open>w_\<close>. The producer \<open>write_chunk_cb\<close> returns the
  buffer it stored through \<open>*buf\<close> (\<open>None\<close> for NULL, else the \<open>length\<close> bytes of \<open>body\<close>), its
  verdict and the new \<open>user_data\<close>.
\<close>

record 'u SoupWriter =
  w_write_tag :: bool
  w_err_tag :: bool
  w_processing :: bool
  w_encoding :: SoupTransferEncoding
  w_write_buf :: bytes
  w_write_buf_state :: array_state
  w_header_len :: nat
  w_headers_done :: bool
  w_chunk_cnt :: nat
  w_headers_done_cb :: "('u \<Rightarrow> 'u) option"
  w_write_chunk_cb :: "('u \<Rightarrow> bytes option \<times> SoupTransferStatus \<times> 'u) option"
  w_write_done_cb :: "('u \<Rightarrow> 'u) option"
  w_error_cb :: "(bool \<Rightarrow> 'u \<Rightarrow> 'u) option"
  w_user_data :: 'u
  w_freed :: bool

definition soup_transfer_write_cancel :: "'u SoupWriter \<Rightarrow> 'u SoupWriter" where
  "soup_transfer_write_cancel w =
     (if w_processing w then w
      else w\<lparr>w_write_tag := False, w_err_tag := False,
             w_write_buf_state := FreedWithSegment, w_freed := True\<rparr>)"

definition soup_transfer_write_error_cb ::
  "'u SoupWriter \<Rightarrow> 'u SoupWriter \<times> write_event list" where
  "soup_transfer_write_error_cb w =
     (case (case w_error_cb w of
              None \<Rightarrow> (w, [])
            | Some cb \<Rightarrow>
                let w1 = w\<lparr>w_processing := True\<rparr>;
                    w2 = w1\<lparr>w_user_data := cb (w_headers_done w1) (w_user_data w1)\<rparr>
                in (w2\<lparr>w_processing := False\<rparr>, [WriteError (w_headers_done w)])) of
        (w3, evs) \<Rightarrow> (soup_transfer_write_cancel w3, evs))"

text \<open>What \<open>printf\<close> writes for \<open>%x\<close>: lower-case hexadecimal without leading zeros.\<close>

definition hex_char :: "nat \<Rightarrow> char" where
  "hex_char d = ''0123456789abcdef'' ! d"

function printf_x :: "nat \<Rightarrow> bytes" where
  "printf_x n = (if n < 16 then [hex_char n] else printf_x (n div 16) @ [hex_char (n mod 16)])"
  by pat_completeness auto
termination
  by (relation "measure id") auto

declare printf_x.simps [simp del]

definition write_chunk_sep :: "bytes \<Rightarrow> nat \<Rightarrow> bool \<Rightarrow> bytes" where
  "write_chunk_sep arr len first_chunk =
     (if len \<noteq> 0
      then g_byte_array_append arr
             (if first_chunk then printf_x len @ CRLF else CRLF @ printf_x len @ CRLF)
      else g_byte_array_append arr (CRLF @ ''0'' @ CRLF))"

text \<open>
  \<open>write_chunk\<close> passes \<open>w->chunk_cnt\<close> as the \<open>gboolean first_chunk\<close>: the flag is true
  when the count is not zero.
\<close>

definition write_chunk :: "'u SoupWriter \<Rightarrow> bytes \<Rightarrow> 'u SoupWriter" where
  "write_chunk w buf =
     (let w1 = (if w_encoding w = SOUP_TRANSFER_CHUNKED
                then w\<lparr>w_write_buf := write_chunk_sep (w_write_buf w) (length buf)
                                         (w_chunk_cnt w \<noteq> 0),
                       w_chunk_cnt := w_chunk_cnt w + 1\<rparr>
                else w)
      in w1\<lparr>w_write_buf := g_byte_array_append (w_write_buf w1) buf\<rparr>)"

text \<open>
  The channel is the list of what its next writes return: \<open>WriteOk n\<close> takes up to \<open>n\<close>
  bytes with \<open>G_IO_ERROR_NONE\<close>, \<open>WriteAgain\<close> is \<open>G_IO_ERROR_AGAIN\<close>, \<open>WriteErr\<close> any other
  error or a non-zero \<open>errno\<close>. When the list is used up a write would block.
\<close>

datatype write_result = WriteOk nat | WriteAgain | WriteErr

definition g_io_channel_write ::
  "write_result list \<Rightarrow> write_result \<times> write_result list" where
  "g_io_channel_write chan = (case chan of [] \<Rightarrow> (WriteAgain, []) | x # xs \<Rightarrow> (x, xs))"

text \<open>
  One pass through the body of \<open>while (w->write_buf->len)\<close>, after the write: \<open>goto
  TRY_AGAIN\<close>, the error handler and \<open>goto DONE_WRITING\<close>, a failed \<open>g_assert\<close>, or the
  writer after the removal of the bytes written, those bytes, and the trace.
\<close>

datatype 'u write_step =
    StepTryAgain
  | StepError "'u SoupWriter" "write_event list"
  | StepAbort error
  | StepWrote "'u SoupWriter" bytes "write_event list"

definition write_step :: "'u SoupWriter \<Rightarrow> write_result \<Rightarrow> 'u write_step" where
  "write_step w res =
     (case res of
        WriteAgain \<Rightarrow> StepTryAgain
      | WriteErr \<Rightarrow>
          (case soup_transfer_write_error_cb w of (w1, evs1) \<Rightarrow> StepError w1 evs1)
      | WriteOk n \<Rightarrow>
          let bytes_written = min n (length (w_write_buf w)) in
          if bytes_written = 0 then StepTryAgain
          else
            (case (if \<not> w_headers_done w \<and> bytes_written \<ge> w_header_len w
                   then (case w_headers_done_cb w of
                           None \<Rightarrow> (w\<lparr>w_headers_done := True\<rparr>, [])
                         | Some cb \<Rightarrow>
                             let w1 = w\<lparr>w_processing := True\<rparr>;
                                 w2 = w1\<lparr>w_user_data := cb (w_user_data w1)\<rparr>
                             in (w2\<lparr>w_processing := False, w_headers_done := True\<rparr>,
                                 [WriteHeadersDone]))
                   else (w, [])) of
               (w3, evs3) \<Rightarrow>
                 (case remove_block_at_index (w_write_buf w3) 0 bytes_written of
                    Inl e \<Rightarrow> StepAbort e
                  | Inr arr \<Rightarrow>
                      StepWrote (w3\<lparr>w_write_buf := arr\<rparr>)
                        (take bytes_written (w_write_buf w3)) evs3)))"

text \<open>
  The block under \<open>if (w->write_chunk_cb)\<close>: \<open>goto WRITE_AGAIN\<close> with a framed chunk in the
  buffer, \<open>goto TRY_AGAIN\<close>, or on to the write-done callback, in chunked encoding with the
  terminator appended to the buffer.
\<close>

datatype 'u requested =
    WriteAgainWith "'u SoupWriter" "write_event list"
  | TryAgain "'u SoupWriter" "write_event list"
  | Completing "'u SoupWriter" "write_event list"

definition request_chunk :: "'u SoupWriter \<Rightarrow> 'u requested" where
  "request_chunk w =
     (case w_write_chunk_cb w of
        None \<Rightarrow> Completing w []
      | Some cb \<Rightarrow>
          let w1 = w\<lparr>w_processing := True\<rparr>;
              (buf, ret, u) = cb (w_user_data w1);
              w2 = w1\<lparr>w_user_data := u, w_processing := False\<rparr>
          in (case buf of
                Some b \<Rightarrow>
                  if b \<noteq> [] then WriteAgainWith (write_chunk w2 b) [WriteChunkRequested]
                  else if ret = SOUP_TRANSFER_CONTINUE then TryAgain w2 [WriteChunkRequested]
                  else if w_encoding w2 = SOUP_TRANSFER_CHUNKED
                  then Completing
                         (w2\<lparr>w_write_buf := write_chunk_sep (w_write_buf w2) 0
                                              (w_chunk_cnt w2 \<noteq> 0)\<rparr>)
                         [WriteChunkRequested]
                  else Completing w2 [WriteChunkRequested]
              | None \<Rightarrow>
                  if ret = SOUP_TRANSFER_CONTINUE then TryAgain w2 [WriteChunkRequested]
                  else if w_encoding w2 = SOUP_TRANSFER_CHUNKED
                  then Completing
                         (w2\<lparr>w_write_buf := write_chunk_sep (w_write_buf w2) 0
                                              (w_chunk_cnt w2 \<noteq> 0)\<rparr>)
                         [WriteChunkRequested]
                  else Completing w2 [WriteChunkRequested]))"

text \<open>The write-done callback and \<open>soup_transfer_write_cancel\<close>.\<close>

definition complete_write :: "'u SoupWriter \<Rightarrow> 'u SoupWriter \<times> write_event list" where
  "complete_write w =
     (case (case w_write_done_cb w of
              None \<Rightarrow> (w, [])
            | Some cb \<Rightarrow>
                let w1 = w\<lparr>w_processing := True\<rparr>;
                    w2 = w1\<lparr>w_user_data := cb (w_user_data w1)\<rparr>
                in (w2\<lparr>w_processing := False\<rparr>, [WriteDone])) of
        (w3, evs) \<Rightarrow> (soup_transfer_write_cancel w3, evs))"

lemma write_chunk_nonempty: "b \<noteq> [] \<Longrightarrow> w_write_buf (write_chunk w b) \<noteq> []"
  by (simp add: write_chunk_def Let_def g_byte_array_append_def)

lemma request_chunk_WriteAgainWith:
  "request_chunk w = WriteAgainWith w' evs \<Longrightarrow> w_write_buf w' \<noteq> []"
  unfolding request_chunk_def Let_def
  by (auto split: option.splits prod.splits if_splits simp: write_chunk_nonempty)

lemma write_step_StepWrote:
  "write_step w res = StepWrote w' out evs \<Longrightarrow> \<exists>n. res = WriteOk n"
  unfolding write_step_def by (cases res) (auto split: prod.splits)

text \<open>
  \<open>soup_transfer_write_cb\<close> from \<open>WRITE_AGAIN\<close> on. It returns its result, the writer, what
  is left of the channel, the bytes the channel took, and the trace.
\<close>

function soup_transfer_write_cb_loop ::
  "'u SoupWriter \<Rightarrow> write_result list \<Rightarrow> bytes \<Rightarrow> write_event list
   \<Rightarrow> error + (bool \<times> 'u SoupWriter \<times> write_result list \<times> bytes \<times> write_event list)" where
  "soup_transfer_write_cb_loop w chan sent evs =
     (if w_write_buf w \<noteq> []
      then
        (case g_io_channel_write chan of
           (res, chan') \<Rightarrow>
             (case write_step w res of
                StepTryAgain \<Rightarrow> Inr (True, w, chan', sent, evs)
              | StepError w1 evs1 \<Rightarrow> Inr (False, w1, chan', sent, evs @ evs1)
              | StepAbort e \<Rightarrow> Inl e
              | StepWrote w1 out evs1 \<Rightarrow>
                  soup_transfer_write_cb_loop w1 chan' (sent @ out) (evs @ evs1)))
      else
        (case request_chunk w of
           WriteAgainWith w1 evs1 \<Rightarrow> soup_transfer_write_cb_loop w1 chan sent (evs @ evs1)
         | TryAgain w1 evs1 \<Rightarrow> Inr (True, w1, chan, sent, evs @ evs1)
         | Completing w1 evs1 \<Rightarrow>
             (case complete_write w1 of
                (w2, evs2) \<Rightarrow> Inr (False, w2, chan, sent, evs @ evs1 @ evs2))))"
  by pat_completeness auto
termination
  by (relation "measure (\<lambda>(w, chan, sent, evs).
                  2 * length chan + (if w_write_buf w = [] then 1 else 0))")
     (auto simp: g_io_channel_write_def split: list.splits
           dest: write_step_StepWrote request_chunk_WriteAgainWith)

declare soup_transfer_write_cb_loop.simps [simp del]

definition soup_transfer_write_cb ::
  "'u SoupWriter \<Rightarrow> write_result list
   \<Rightarrow> error + (bool \<times> 'u SoupWriter \<times> write_result list \<times> bytes \<times> write_event list)" where
  "soup_transfer_write_cb w chan = soup_transfer_write_cb_loop w chan [] []"

text \<open>\<open>soup_transfer_write\<close> returns the writer and the trace of its one producer call.\<close>

definition soup_transfer_write ::
  "bytes option \<Rightarrow> bytes option \<Rightarrow> SoupTransferEncoding
   \<Rightarrow> ('u \<Rightarrow> 'u) option
   \<Rightarrow> ('u \<Rightarrow> bytes option \<times> SoupTransferStatus \<times> 'u) option
   \<Rightarrow> ('u \<Rightarrow> 'u) option
   \<Rightarrow> (bool \<Rightarrow> 'u \<Rightarrow> 'u) option
   \<Rightarrow> 'u \<Rightarrow> 'u SoupWriter \<times> write_event list" where
  "soup_transfer_write header src enc hd_cb wr_cb dn_cb er_cb u =
     (let w0 = \<lparr>w_write_tag = False, w_err_tag = False, w_processing = False,
                w_encoding = enc, w_write_buf = [], w_write_buf_state = Allocated,
                w_header_len = 0, w_headers_done = False, w_chunk_cnt = 0,
                w_headers_done_cb = hd_cb, w_write_chunk_cb = wr_cb,
                w_write_done_cb = dn_cb, w_error_cb = er_cb, w_user_data = u,
                w_freed = False\<rparr>;
          w1 = (case header of
                  None \<Rightarrow> w0
                | Some h \<Rightarrow>
                    if h \<noteq> []
                    then w0\<lparr>w_write_buf := g_byte_array_append (w_write_buf w0) h,
                            w_header_len := length h\<rparr>
                    else w0);
          w2 = (case src of
                  None \<Rightarrow> w1
                | Some b \<Rightarrow> if b \<noteq> [] then write_chunk w1 b else w1);
          (w3, evs) =
            (case wr_cb of
               None \<Rightarrow> (w2, [])
             | Some cb \<Rightarrow>
                 let wa = w2\<lparr>w_processing := True\<rparr>;
                     (buf, ret, u') = cb u;
                     wb = wa\<lparr>w_user_data := u', w_processing := False\<rparr>;
                     wc = (case buf of
                             None \<Rightarrow> wb
                           | Some b \<Rightarrow> if b \<noteq> [] then write_chunk wb b else wb);
                     wd = (if ret = SOUP_TRANSFER_END
                           then (let we = wc\<lparr>w_write_chunk_cb := None\<rparr> in
                                 if w_encoding we = SOUP_TRANSFER_CHUNKED
                                 then we\<lparr>w_write_buf := write_chunk_sep (w_write_buf we) 0
                                                           (w_chunk_cnt we \<noteq> 0)\<rparr>
                                 else we)
                           else wc)
                 in (wd, [WriteChunkRequested]))
      in (w3\<lparr>w_write_tag := True, w_err_tag := True\<rparr>, evs))"

section \<open>Example transfers\<close>

text \<open>
  Callbacks that count their calls in \<open>user_data\<close>, and the readers and writers the
  theorems below are run on. \<open>count_headers_cb enc cl\<close> answers the header block with the
  encoding \<open>enc\<close> and the content length \<open>cl\<close>.
\<close>

definition count_headers_cb ::
  "SoupTransferEncoding \<Rightarrow> 32 word \<Rightarrow> bytes \<Rightarrow> SoupTransferEncoding \<Rightarrow> 32 word \<Rightarrow> nat
   \<Rightarrow> SoupTransferDone \<times> SoupTransferEncoding \<times> 32 word \<times> nat" where
  "count_headers_cb enc cl str e c u = (SOUP_TRANSFER_CONTINUE, enc, cl, Suc u)"

definition count_chunk_cb :: "bytes \<Rightarrow> nat \<Rightarrow> nat \<Rightarrow> SoupTransferDone \<times> nat" where
  "count_chunk_cb d n u = (SOUP_TRANSFER_CONTINUE, Suc u)"

definition count_done_cb :: "bytes \<Rightarrow> nat \<Rightarrow> nat" where
  "count_done_cb d u = Suc u"

definition count_error_cb :: "bool \<Rightarrow> nat \<Rightarrow> nat" where
  "count_error_cb b u = Suc u"

definition http_ok :: bytes where
  "http_ok = ''HTTP/1.1 200 OK'' @ CRLF @ CRLF"

definition example_reader :: "SoupTransferEncoding \<Rightarrow> 32 word \<Rightarrow> nat SoupReader" where
  "example_reader enc cl =
     soup_transfer_read False (Some (count_headers_cb enc cl)) (Some count_chunk_cb)
       (Some count_done_cb) (Some count_error_cb) 0"

text \<open>Observers of a handler run: its trace, its result, and the reader it leaves.\<close>

definition run_events ::
  "error + (bool \<times> 'u SoupReader \<times> read_result list \<times> read_event list)
   \<Rightarrow> read_event list option" where
  "run_events x = (case x of Inl e \<Rightarrow> None | Inr (b, r, chan, evs) \<Rightarrow> Some evs)"

definition run_returns ::
  "error + (bool \<times> 'u SoupReader \<times> read_result list \<times> read_event list) \<Rightarrow> bool option" where
  "run_returns x = (case x of Inl e \<Rightarrow> None | Inr (b, r, chan, evs) \<Rightarrow> Some b)"

definition reader_after :: "'u SoupReader \<Rightarrow> read_result list \<Rightarrow> 'u SoupReader" where
  "reader_after r chan =
     (case soup_transfer_read_cb r chan of Inl e \<Rightarrow> r | Inr (b, r', chan', evs) \<Rightarrow> r')"

text \<open>A reader that was told \<open>Content-Length: 5\<close> and has received \<open>he\<close> so far.\<close>

definition reader_partial_body :: "nat SoupReader" where
  "reader_partial_body =
     reader_after (example_reader SOUP_TRANSFER_CONTENT_LENGTH 5) [ReadOk (http_ok @ ''he'')]"

text \<open>A reader right after the header block, told \<open>Content-Length: 0\<close>.\<close>

definition reader_length_zero :: "nat SoupReader" where
  "reader_length_zero =
     (example_reader SOUP_TRANSFER_CONTENT_LENGTH 0)
       \<lparr>header_len := 19, encoding := SOUP_TRANSFER_CONTENT_LENGTH\<rparr>"

text \<open>A reader told \<open>Content-Length: 0\<close> whose buffer holds the header block just read.\<close>

definition reader_headers_only :: "nat SoupReader" where
  "reader_headers_only =
     (example_reader SOUP_TRANSFER_CONTENT_LENGTH 0)\<lparr>recv_buf := http_ok\<rparr>"

text \<open>A reader inside one of its callbacks.\<close>

definition reader_in_callback :: "nat SoupReader" where
  "reader_in_callback = (example_reader SOUP_TRANSFER_UNKNOWN 0)\<lparr>processing := True\<rparr>"

definition http_post :: bytes where
  "http_post = ''POST / HTTP/1.1'' @ CRLF @ ''Transfer-Encoding: chunked'' @ CRLF @ CRLF"

text \<open>The producer of claim C1: \<open>hi\<close> first, then an empty buffer with \<open>SOUP_TRANSFER_END\<close>.\<close>

definition hi_producer :: "nat \<Rightarrow> bytes option \<times> SoupTransferStatus \<times> nat" where
  "hi_producer u = (if u = 0 then (Some ''hi'', SOUP_TRANSFER_CONTINUE, Suc u)
                    else (Some [], SOUP_TRANSFER_END, Suc u))"

definition hi_writer :: "nat SoupWriter" where
  "hi_writer = fst (soup_transfer_write (Some http_post) None SOUP_TRANSFER_CHUNKED
                      (Some Suc) (Some hi_producer) (Some Suc) (Some (\<lambda>b. Suc)) 0)"

text \<open>
  A producer of two chunks, \<open>hi\<close> and \<open>you\<close>, then an empty buffer with
  \<open>SOUP_TRANSFER_END\<close>; its writer has no other callback, so \<open>user_data\<close> counts the
  producer's calls.
\<close>

definition hi_you_producer :: "nat \<Rightarrow> bytes option \<times> SoupTransferStatus \<times> nat" where
  "hi_you_producer u =
     (if u = 0 then (Some ''hi'', SOUP_TRANSFER_CONTINUE, Suc u)
      else if u = 1 then (Some ''you'', SOUP_TRANSFER_CONTINUE, Suc u)
      else (Some [], SOUP_TRANSFER_END, Suc u))"

definition hi_you_writer :: "nat SoupWriter" where
  "hi_you_writer = fst (soup_transfer_write (Some http_post) None SOUP_TRANSFER_CHUNKED
                          None (Some hi_you_producer) None None 0)"

text \<open>A writer of the four header bytes \<open>HEAD\<close> and no body.\<close>

definition head_writer :: "nat SoupWriter" where
  "head_writer = fst (soup_transfer_write (Some ''HEAD'') None SOUP_TRANSFER_CONTENT_LENGTH
                        (Some Suc) None (Some Suc) (Some (\<lambda>b. Suc)) 0)"

definition writer_in_callback :: "nat SoupWriter" where
  "writer_in_callback = head_writer\<lparr>w_processing := True\<rparr>"

definition write_sent ::
  "error + (bool \<times> 'u SoupWriter \<times> write_result list \<times> bytes \<times> write_event list)
   \<Rightarrow> bytes option" where
  "write_sent x = (case x of Inl e \<Rightarrow> None | Inr (b, w, chan, sent, evs) \<Rightarrow> Some sent)"

definition write_events ::
  "error + (bool \<times> 'u SoupWriter \<times> write_result list \<times> bytes \<times> write_event list)
   \<Rightarrow> write_event list option" where
  "write_events x = (case x of Inl e \<Rightarrow> None | Inr (b, w, chan, sent, evs) \<Rightarrow> Some evs)"

definition writer_after :: "'u SoupWriter \<Rightarrow> write_result list \<Rightarrow> 'u SoupWriter" where
  "writer_after w chan =
     (case soup_transfer_write_cb w chan of Inl e \<Rightarrow> w | Inr (b, w', chan', sent, evs) \<Rightarrow> w')"

section \<open>Block removal: properties\<close>

lemma g_memmove_tail:
  assumes "offset + len \<le> length arr"
  shows "take (length arr - len)
           (g_memmove arr offset (offset + len) (length arr - offset - len))
         = take offset arr @ drop (offset + len) arr"
proof -
  have n: "length (drop (offset + len) arr) = length arr - offset - len"
    by simp
  have "g_memmove arr offset (offset + len) (length arr - offset - len)
        = take offset arr @ drop (offset + len) arr @ drop (length arr - len) arr"
    using assms unfolding g_memmove_def by (simp add: add.commute)
  moreover have "length (take offset arr @ drop (offset + len) arr) = length arr - len"
    using assms by simp
  ultimately show ?thesis
    by (metis append.assoc append_eq_conv_conj)
qed

lemma remove_block_all: "arr \<noteq> [] \<Longrightarrow> remove_block_at_index arr 0 (length arr) = Inr []"
  by (simp add: remove_block_at_index_def g_byte_array_set_size_def g_memmove_def)

text \<open>
  C10. With a non-zero length and \<open>offset + length \<le> arr.len\<close>, \<open>remove_block_at_index\<close>
  leaves the first \<open>offset\<close> bytes followed by the bytes from \<open>offset + length\<close> on: the
  array is shorter by exactly \<open>length\<close>, and the bytes outside the block keep their order.
\<close>

theorem remove_block_at_index_spec:
  assumes "len \<noteq> 0" and "offset + len \<le> length arr"
  shows "remove_block_at_index arr offset len = Inr (take offset arr @ drop (offset + len) arr)
       \<and> length (take offset arr @ drop (offset + len) arr) = length arr - len"
proof -
  have "remove_block_at_index arr offset len
        = Inr (take (length arr - len)
                 (g_memmove arr offset (offset + len) (length arr - offset - len)))"
    using assms by (simp add: remove_block_at_index_def g_byte_array_set_size_def)
  moreover have "length (take offset arr @ drop (offset + len) arr) = length arr - len"
    using assms by simp
  ultimately show ?thesis
    using g_memmove_tail [OF assms(2)] by simp
qed

theorem remove_block_at_index_spec_witness:
  "(2::nat) \<noteq> 0 \<and> (1::nat) + 2 \<le> length ''abcde''
   \<and> remove_block_at_index ''abcde'' 1 2 = Inr ''ade''"
  using remove_block_at_index_spec [of 2 1 "''abcde''"] by simp

section \<open>Hexadecimal chunk lengths: properties\<close>

lemma hex_term_eq: "isxdigit c \<Longrightarrow> hex_term c = word_of_nat (hex_digit_value c)"
  unfolding hex_term_def isxdigit_def isdigit_def tolower_def hex_digit_value_def Let_def
  by (auto simp: of_nat_diff)

lemma foldl_hex:
  "foldl (\<lambda>acc c. 16 * acc + hex_digit_value c) a ds
   = a * 16 ^ length ds + foldl (\<lambda>acc c. 16 * acc + hex_digit_value c) 0 ds"
proof (induction ds arbitrary: a)
  case Nil
  show ?case by simp
next
  case (Cons d ds)
  show ?case
    using Cons.IH [of "16 * a + hex_digit_value d"] Cons.IH [of "hex_digit_value d"]
    by (simp add: algebra_simps)
qed

lemma hex_numeral_value_Cons:
  "hex_numeral_value (d # ds) = hex_digit_value d * 16 ^ length ds + hex_numeral_value ds"
  unfolding hex_numeral_value_def using foldl_hex [of "hex_digit_value d" ds] by simp

lemma count_xdigits_prefix:
  "list_all isxdigit ds \<Longrightarrow> \<not> isxdigit c' \<Longrightarrow>
   count_xdigits (ds @ c' # rest) = length ds"
  by (induction ds) auto

lemma decode_hex_loop_value:
  "list_all isxdigit ds \<Longrightarrow>
   decode_hex_loop (ds @ rest) (length ds) acc = acc + word_of_nat (hex_numeral_value ds)"
proof (induction ds arbitrary: acc)
  case Nil
  show ?case by (simp add: hex_numeral_value_def)
next
  case (Cons d ds)
  have "(16::32 word) ^ length ds = 2 ^ (4 * length ds)"
    by (simp add: power_mult)
  then show ?case using Cons
    by (simp add: hex_numeral_value_Cons hex_term_eq push_bit_eq_mult algebra_simps)
qed

lemma sint_word_of_nat:
  assumes "v < 2 ^ 31"
  shows "sint (word_of_nat v :: 32 word) = int v"
proof -
  have "int v < 2 ^ 31"
    using assms by (metis of_nat_less_iff of_nat_numeral of_nat_power)
  then have "signed_take_bit 31 (int v) = int v"
    by (intro signed_take_bit_int_eq_self) auto
  then show ?thesis by (simp add: signed_of_nat)
qed

text \<open>
  C7, as stated, fails: the result is a 32-bit \<open>gint\<close>, so eight digits with the top bit
  set do not come back as their value. \<open>80000000\<close> is read as \<open>-2147483648\<close>.
\<close>

theorem decode_hex_counterexample:
  "list_all isxdigit ''80000000'' \<and> \<not> isxdigit CHR '';''
   \<and> snd (decode_hex ''80000000;'') = 8
   \<and> sint (fst (decode_hex ''80000000;'')) = - 2147483648
   \<and> int (hex_numeral_value ''80000000'') = 2147483648"
  by (simp add: decode_hex_def isxdigit_def isdigit_def hex_term_def tolower_def
      hex_numeral_value_def hex_digit_value_def)

text \<open>
  C7, amended. For \<open>1 \<le> k \<le> 8\<close> hex digits of either case whose value is below \<open>2^31\<close>,
  followed by a byte that is no hex digit, \<open>decode_hex\<close> returns the value of the digits
  read as a hexadecimal numeral and stores \<open>k\<close> in \<open>*width\<close>.
\<close>

theorem decode_hex_value:
  assumes "ds \<noteq> []" and "list_all isxdigit ds" and "\<not> isxdigit c'"
    and "length ds \<le> 8" and "hex_numeral_value ds < 2 ^ 31"
  shows "sint (fst (decode_hex (ds @ c' # rest))) = int (hex_numeral_value ds)
       \<and> snd (decode_hex (ds @ c' # rest)) = length ds"
proof -
  have w: "count_xdigits (ds @ c' # rest) = length ds"
    using assms(2,3) by (rule count_xdigits_prefix)
  have "fst (decode_hex (ds @ c' # rest)) = word_of_nat (hex_numeral_value ds)"
    using decode_hex_loop_value [OF assms(2), of "c' # rest" 0]
    by (simp add: decode_hex_def Let_def w)
  then show ?thesis
    using sint_word_of_nat [OF assms(5)] by (simp add: decode_hex_def Let_def w)
qed

theorem decode_hex_value_witness:
  "''1aF'' \<noteq> [] \<and> list_all isxdigit ''1aF'' \<and> \<not> isxdigit CHR '';''
   \<and> length ''1aF'' \<le> 8 \<and> hex_numeral_value ''1aF'' < 2 ^ 31
   \<and> sint (fst (decode_hex ''1aF;x'')) = 431 \<and> snd (decode_hex ''1aF;x'') = 3"
proof -
  have h: "hex_numeral_value ''1aF'' = 431"
    by (simp add: hex_numeral_value_def hex_digit_value_def)
  have x: "list_all isxdigit ''1aF''" "\<not> isxdigit CHR '';''"
    by (simp_all add: isxdigit_def isdigit_def)
  show ?thesis
    using decode_hex_value [of "''1aF''" "CHR '';''" "''x''"] x h by simp
qed

section \<open>The chunked decoder: restarting\<close>

text \<open>
  C2. Decoding is meant to give the same result however the bytes are split over appends.
  The code does not: \<open>5 CRLF hello CRLF 0 CRLF CRLF\<close> appended at once decodes to
  \<open>hello\<close> with the terminal flag; appended without its last CRLF first, or one byte at a
  time, the pass that sees \<open>hello CRLF 0 CRLF\<close> clears the 5-byte test, takes the zero
  chunk, and removes 5 bytes at index 5 of an 8-byte array: the \<open>g_assert\<close> of
  \<open>remove_block_at_index\<close> fails. A reader that gets the same bytes in one read delivers
  \<open>hello\<close>; when a read stops before the last CRLF, its handler aborts while it processes
  those bytes, before the last CRLF is read (no trace).
\<close>

theorem decode_chunk_not_restartable:
  "decode_chunk_feed \<lparr>cs_len = 0, cs_idx = 0\<rparr> [] [chunked_hello] 0 False
     = Inr (True, \<lparr>cs_len = 0, cs_idx = 5\<rparr>, ''hello'', 5)
   \<and> decode_chunk_feed \<lparr>cs_len = 0, cs_idx = 0\<rparr> []
        [take 13 chunked_hello, drop 13 chunked_hello] 0 False = Inl AssertFailed
   \<and> decode_chunk_feed \<lparr>cs_len = 0, cs_idx = 0\<rparr> []
        (map (\<lambda>c. [c]) chunked_hello) 0 False = Inl AssertFailed
   \<and> run_events (soup_transfer_read_cb (example_reader SOUP_TRANSFER_CHUNKED 0)
        [ReadOk (http_ok @ chunked_hello)])
       = Some [ReadHeadersDone http_ok, ReadChunk ''hello'' 5, ReadDone ''hello'']
   \<and> run_events (soup_transfer_read_cb (example_reader SOUP_TRANSFER_CHUNKED 0)
        [ReadOk (http_ok @ take 13 chunked_hello), ReadAgain, ReadOk (drop 13 chunked_hello)])
       = None"
  by code_simp

section \<open>The reader: what its callbacks see\<close>

lemma issue_chunk_callback_events:
  "issue_chunk_callback r data len c = (r', c', evs) \<Longrightarrow> list_all nonempty_chunk evs"
  by (auto simp: issue_chunk_callback_def Let_def split: option.splits if_splits prod.splits)

lemma read_chunk_events:
  "read_chunk r c = Inr (d, r', c', evs) \<Longrightarrow> list_all nonempty_chunk evs"
  unfolding read_chunk_def Let_def
  by (auto split: sum.splits prod.splits if_splits dest: issue_chunk_callback_events)

lemma read_content_length_events:
  "read_content_length r c = (d, r', c', evs) \<Longrightarrow> list_all nonempty_chunk evs"
  unfolding read_content_length_def
  by (auto split: prod.splits if_splits dest: issue_chunk_callback_events)

lemma read_unknown_events:
  "read_unknown r c = (d, r', c', evs) \<Longrightarrow> list_all nonempty_chunk evs"
  unfolding read_unknown_def
  by (auto split: prod.splits if_splits dest: issue_chunk_callback_events)

lemma issue_final_callback_events:
  "issue_final_callback r = (r', evs) \<Longrightarrow> list_all nonempty_chunk evs"
  by (auto simp: issue_final_callback_def Let_def split: option.splits)

lemma read_headers_events:
  "read_headers r = Inr (f, evs) \<Longrightarrow> list_all nonempty_chunk evs"
  unfolding read_headers_def Let_def
  by (auto split: option.splits if_splits prod.splits sum.splits)

lemma soup_transfer_read_error_cb_events:
  "soup_transfer_read_error_cb r = (r', evs) \<Longrightarrow> list_all nonempty_chunk evs"
  unfolding soup_transfer_read_error_cb_def Let_def
  by (auto split: option.splits if_splits prod.splits dest: issue_final_callback_events)

lemma body_step_events:
  assumes "(case encoding r1 of
              SOUP_TRANSFER_CHUNKED \<Rightarrow> read_chunk r1 False
            | SOUP_TRANSFER_CONTENT_LENGTH \<Rightarrow> Inr (read_content_length r1 False)
            | SOUP_TRANSFER_UNKNOWN \<Rightarrow> Inr (read_unknown r1 False)) = Inr (d, r2, c, evs)"
  shows "list_all nonempty_chunk evs"
  using assms
  by (cases "encoding r1")
     (auto dest: read_chunk_events read_content_length_events read_unknown_events)

lemma process_read_events:
  assumes "process_read r t = Inr (p, evs)"
  shows "list_all nonempty_chunk evs"
proof -
  obtain f evs0 where h: "(if header_len r = 0 then read_headers r else Inr (Proceed r, [])) = Inr (f, evs0)"
    using assms unfolding process_read_def by (auto split: sum.splits)
  then have e0: "list_all nonempty_chunk evs0"
    by (auto split: if_splits dest: read_headers_events)
  show ?thesis
  proof (cases f)
    case (ReturnTrue r1)
    then show ?thesis using assms h e0 unfolding process_read_def by auto
  next
    case (FinishRead r1)
    then show ?thesis using assms h e0 unfolding process_read_def by auto
  next
    case (Proceed r1)
    show ?thesis
    proof (cases "t = 0")
      case True
      then show ?thesis using assms h e0 Proceed unfolding process_read_def
        by (auto split: prod.splits dest: issue_final_callback_events)
    next
      case False
      then obtain d r2 c evs2 where b: "(case encoding r1 of
              SOUP_TRANSFER_CHUNKED \<Rightarrow> read_chunk r1 False
            | SOUP_TRANSFER_CONTENT_LENGTH \<Rightarrow> Inr (read_content_length r1 False)
            | SOUP_TRANSFER_UNKNOWN \<Rightarrow> Inr (read_unknown r1 False)) = Inr (d, r2, c, evs2)"
        using assms h Proceed unfolding process_read_def
        by (auto split: sum.splits)
      have e2: "list_all nonempty_chunk evs2" using b by (rule body_step_events)
      show ?thesis using assms h Proceed False b e0 e2 unfolding process_read_def
        by (auto split: prod.splits if_splits dest: issue_final_callback_events)
    qed
  qed
qed

lemma soup_transfer_read_cb_loop_events:
  "soup_transfer_read_cb_loop r chan t evs = Inr (b, r', chan', evs')
   \<Longrightarrow> list_all nonempty_chunk evs \<Longrightarrow> list_all nonempty_chunk evs'"
proof (induction r chan t evs rule: soup_transfer_read_cb_loop.induct)
  case (1 r chan t evs)
  obtain res chan1 where g: "g_io_channel_read chan = (res, chan1)"
    by (cases "g_io_channel_read chan")
  show ?case
  proof (cases "read_action res t")
    case (Append bs)
    then show ?thesis
      using "1.prems" "1.IH"(1) [OF g [symmetric] Append] g
      by (subst (asm) soup_transfer_read_cb_loop.simps) simp
  next
    case ProcessRead
    show ?thesis
    proof (cases "process_read r t")
      case (Inl e)
      then show ?thesis using "1.prems" g ProcessRead
        by (subst (asm) soup_transfer_read_cb_loop.simps) simp
    next
      case (Inr pe)
      obtain p evs1 where pe: "pe = (p, evs1)" by (cases pe)
      have e1: "list_all nonempty_chunk evs1"
        using Inr pe process_read_events by blast
      show ?thesis
      proof (cases p)
        case (Returned b1 r1)
        then show ?thesis using "1.prems" g ProcessRead Inr pe e1
          by (subst (asm) soup_transfer_read_cb_loop.simps) auto
      next
        case (ReadAgainFrom r1)
        have "soup_transfer_read_cb_loop r1 chan1 0 (evs @ evs1) = Inr (b, r', chan', evs')"
          using "1.prems"(1) g ProcessRead Inr pe ReadAgainFrom
          by (subst (asm) soup_transfer_read_cb_loop.simps) simp
        then show ?thesis
          using "1.IH"(2) [OF g [symmetric] ProcessRead Inr pe [symmetric] ReadAgainFrom]
            "1.prems"(2) e1
          by simp
      qed
    qed
  next
    case ReturnAgain
    then show ?thesis using "1.prems" g
      by (subst (asm) soup_transfer_read_cb_loop.simps) auto
  next
    case ChannelError
    then show ?thesis using "1.prems" g
      by (subst (asm) soup_transfer_read_cb_loop.simps)
         (auto split: prod.splits dest: soup_transfer_read_error_cb_events)
  qed
qed

section \<open>The reader: headers come before an encoding\<close>












section \<open>The reader: claims\<close>

lemma issue_final_callback_eq:
  "issue_final_callback r =
     (case read_done_cb r of
        None \<Rightarrow> (r\<lparr>recv_buf := recv_buf r @ [CHR 0x00]\<rparr>, [])
      | Some cb \<Rightarrow>
          (r\<lparr>recv_buf := recv_buf r @ [CHR 0x00], callback_issued := True,
             user_data := cb (recv_buf r) (user_data r), processing := False\<rparr>,
           [ReadDone (recv_buf r)]))"
  by (simp add: issue_final_callback_def g_byte_array_append_def Let_def split: option.splits)

lemma issue_final_callback_trace:
  "snd (issue_final_callback r)
   = (case read_done_cb r of None \<Rightarrow> [] | Some cb \<Rightarrow> [ReadDone (recv_buf r)])"
  by (simp add: issue_final_callback_eq split: option.splits)



text \<open>
  C9. The body-chunk callback is never invoked with a zero-length buffer:
  \<open>issue_chunk_callback\<close> with length 0 calls nothing and changes nothing, the
  content-length and unknown steps call nothing on an empty receive buffer, and in every
  run of the read handler, whatever the encoding, each body-chunk callback in the trace
  was handed a non-zero length.
\<close>

theorem chunk_callback_never_empty:
  "issue_chunk_callback r data 0 c = (r, c, [])
   \<and> (recv_buf r = [] \<longrightarrow>
        read_content_length r c = (content_length r = 0, r, c, [])
        \<and> read_unknown r c = (False, r, c, []))
   \<and> (\<forall>b r' chan' evs. soup_transfer_read_cb r chan = Inr (b, r', chan', evs)
         \<longrightarrow> list_all nonempty_chunk evs)"
proof -
  have "issue_chunk_callback r data 0 c = (r, c, [])"
    by (simp add: issue_chunk_callback_def split: option.splits)
  moreover have "recv_buf r = [] \<longrightarrow>
        read_content_length r c = (content_length r = 0, r, c, [])
        \<and> read_unknown r c = (False, r, c, [])"
    by (simp add: read_content_length_def read_unknown_def)
  moreover have "\<forall>b r' chan' evs. soup_transfer_read_cb r chan = Inr (b, r', chan', evs)
         \<longrightarrow> list_all nonempty_chunk evs"
    unfolding soup_transfer_read_cb_def
    using soup_transfer_read_cb_loop_events [of r chan 0 "[]"] by simp
  ultimately show ?thesis by simp
qed

theorem chunk_callback_never_empty_witness:
  "recv_buf (example_reader SOUP_TRANSFER_UNKNOWN 0) = []
   \<and> snd (snd (snd (read_unknown (example_reader SOUP_TRANSFER_UNKNOWN 0) False))) = []
   \<and> run_events (soup_transfer_read_cb (example_reader SOUP_TRANSFER_CONTENT_LENGTH 5)
        [ReadOk (http_ok @ ''he''), ReadAgain, ReadOk ''llo''])
      = Some [ReadHeadersDone http_ok, ReadChunk ''he'' 2, ReadChunk ''hello'' 5,
              ReadDone ''hello'']
   \<and> list_all nonempty_chunk
        [ReadHeadersDone http_ok, ReadChunk ''he'' 2, ReadChunk ''hello'' 5, ReadDone ''hello'']"
proof -
  have a: "recv_buf (example_reader SOUP_TRANSFER_UNKNOWN 0) = []"
    by (simp add: example_reader_def soup_transfer_read_def)
  have b: "run_events (soup_transfer_read_cb (example_reader SOUP_TRANSFER_CONTENT_LENGTH 5)
        [ReadOk (http_ok @ ''he''), ReadAgain, ReadOk ''llo''])
      = Some [ReadHeadersDone http_ok, ReadChunk ''he'' 2, ReadChunk ''hello'' 5,
              ReadDone ''hello'']"
    by code_simp
  then obtain b' r' chan' where c:
    "soup_transfer_read_cb (example_reader SOUP_TRANSFER_CONTENT_LENGTH 5)
        [ReadOk (http_ok @ ''he''), ReadAgain, ReadOk ''llo'']
      = Inr (b', r', chan', [ReadHeadersDone http_ok, ReadChunk ''he'' 2,
                             ReadChunk ''hello'' 5, ReadDone ''hello''])"
    by (auto simp: run_events_def split: sum.splits)
  show ?thesis
    using chunk_callback_never_empty [of "example_reader SOUP_TRANSFER_UNKNOWN 0" "[]" False "[]"]
      chunk_callback_never_empty [of "example_reader SOUP_TRANSFER_CONTENT_LENGTH 5" "[]" False
         "[ReadOk (http_ok @ ''he''), ReadAgain, ReadOk ''llo'']"] a b c
    by simp
qed

lemma headers_then_length_zero:
  assumes "header_len r = 0"
    and "soup_substring_index (recv_buf r) (int (length (recv_buf r))) (CRLF @ CRLF)
         = int (length (recv_buf r)) - 4"
    and "4 \<le> length (recv_buf r)"
    and "headers_done_cb r = Some cb"
    and "cb (strncpy (recv_buf r) (length (recv_buf r))) (encoding r) (content_length r)
           (user_data r) = (SOUP_TRANSFER_CONTINUE, SOUP_TRANSFER_CONTENT_LENGTH, 0, u)"
  shows "\<exists>r'. process_read r t
           = Inr (Returned False r',
                  ReadHeadersDone (strncpy (recv_buf r) (length (recv_buf r)))
                  # (case read_done_cb r of None \<Rightarrow> [] | Some dn \<Rightarrow> [ReadDone []]))
         \<and> freed r'"
proof -
  let ?n = "length (recv_buf r)"
  have ne: "recv_buf r \<noteq> []" using assms(3) by (cases "recv_buf r") simp_all
  have n: "nat (int ?n - 4 + 4) = ?n" by simp
  define r3 where "r3 = r\<lparr>processing := False, encoding := SOUP_TRANSFER_CONTENT_LENGTH,
     content_length := 0, user_data := u, recv_buf := [], header_len := ?n\<rparr>"
  have h: "read_headers r = Inr (Proceed r3, [ReadHeadersDone (strncpy (recv_buf r) ?n)])"
    using assms ne unfolding read_headers_def r3_def
    by (simp add: Let_def n remove_block_all)
  have f: "encoding r3 = SOUP_TRANSFER_CONTENT_LENGTH" "content_length r3 = 0"
    "recv_buf r3 = []" "header_len r3 \<noteq> 0" "read_done_cb r3 = read_done_cb r"
    "\<not> processing r3"
    using ne by (simp_all add: r3_def)
  have b: "read_content_length r3 False = (True, r3, False, [])"
    using f by (simp add: read_content_length_def)
  have fin: "snd (issue_final_callback r3)
             = (case read_done_cb r of None \<Rightarrow> [] | Some dn \<Rightarrow> [ReadDone []])"
    using f by (simp add: issue_final_callback_trace split: option.splits)
  have pr: "\<not> processing (fst (issue_final_callback r3))"
    using f by (simp add: issue_final_callback_eq split: option.splits)
  have "process_read r t
        = Inr (Returned False (soup_transfer_read_cancel (fst (issue_final_callback r3))),
               ReadHeadersDone (strncpy (recv_buf r) ?n) # snd (issue_final_callback r3))"
    using assms(1) h f b by (cases "t = 0") (simp_all add: process_read_def split: prod.splits)
  moreover have "freed (soup_transfer_read_cancel (fst (issue_final_callback r3)))"
    using pr by (simp add: soup_transfer_read_cancel_def)
  ultimately show ?thesis using fin by auto
qed

text \<open>
  C6. \<open>read_content_length\<close> reports the body complete exactly when \<open>content_length\<close>
  equals the length of the receive buffer, a comparison of two \<open>guint\<close>s: this holds of the
  values it leaves and of the values it found. With a declared length of zero and an empty
  buffer it reports completion without a callback, and a content-length reader in that
  state ends its transfer at once: the only callback is the final delivery, of an empty
  buffer, and the reader is cancelled. So a reader whose buffer holds a header block and
  nothing else, and whose headers-done callback declares a content length of zero,
  completes in the handler run that finds the headers: headers-done, then the final
  delivery, no body-chunk callback.
\<close>

theorem read_content_length_complete:
  "(case read_content_length r c of
      (fin, r', c', evs) \<Rightarrow>
        (fin \<longleftrightarrow> content_length r' = word_of_nat (length (recv_buf r')))
        \<and> (fin \<longleftrightarrow> content_length r = word_of_nat (length (recv_buf r))))
   \<and> (content_length r = 0 \<and> recv_buf r = [] \<longrightarrow> read_content_length r c = (True, r, c, []))
   \<and> (encoding r = SOUP_TRANSFER_CONTENT_LENGTH \<and> header_len r \<noteq> 0
        \<and> content_length r = 0 \<and> recv_buf r = [] \<longrightarrow>
        process_read r t
          = Inr (Returned False (soup_transfer_read_cancel (fst (issue_final_callback r))),
                 (case read_done_cb r of None \<Rightarrow> [] | Some cb \<Rightarrow> [ReadDone []])))
   \<and> (header_len r = 0 \<and> 4 \<le> length (recv_buf r)
        \<and> soup_substring_index (recv_buf r) (int (length (recv_buf r))) (CRLF @ CRLF)
            = int (length (recv_buf r)) - 4
        \<and> headers_done_cb r = Some hcb
        \<and> hcb (strncpy (recv_buf r) (length (recv_buf r))) (encoding r) (content_length r)
             (user_data r) = (SOUP_TRANSFER_CONTINUE, SOUP_TRANSFER_CONTENT_LENGTH, 0, u) \<longrightarrow>
        (\<exists>r'. process_read r t
           = Inr (Returned False r',
                  ReadHeadersDone (strncpy (recv_buf r) (length (recv_buf r)))
                  # (case read_done_cb r of None \<Rightarrow> [] | Some dn \<Rightarrow> [ReadDone []]))
         \<and> freed r'))"
proof -
  have a: "case read_content_length r c of
      (fin, r', c', evs) \<Rightarrow>
        (fin \<longleftrightarrow> content_length r' = word_of_nat (length (recv_buf r')))
        \<and> (fin \<longleftrightarrow> content_length r = word_of_nat (length (recv_buf r)))"
    unfolding read_content_length_def issue_chunk_callback_def Let_def g_byte_array_set_size_def
    by (auto split: prod.splits option.splits if_splits)
  have b: "content_length r = 0 \<and> recv_buf r = [] \<longrightarrow>
           read_content_length r c = (True, r, c, [])" for c
    by (simp add: read_content_length_def)
  have d: "encoding r = SOUP_TRANSFER_CONTENT_LENGTH \<and> header_len r \<noteq> 0
        \<and> content_length r = 0 \<and> recv_buf r = [] \<longrightarrow>
        process_read r t
          = Inr (Returned False (soup_transfer_read_cancel (fst (issue_final_callback r))),
                 snd (issue_final_callback r))"
    using b [of False] by (auto simp: process_read_def split: prod.splits)
  have d': "encoding r = SOUP_TRANSFER_CONTENT_LENGTH \<and> header_len r \<noteq> 0
        \<and> content_length r = 0 \<and> recv_buf r = [] \<longrightarrow>
        process_read r t
          = Inr (Returned False (soup_transfer_read_cancel (fst (issue_final_callback r))),
                 (case read_done_cb r of None \<Rightarrow> [] | Some cb \<Rightarrow> [ReadDone []]))"
    using d issue_final_callback_trace [of r] by (auto split: option.splits)
  have e: "header_len r = 0 \<and> 4 \<le> length (recv_buf r)
        \<and> soup_substring_index (recv_buf r) (int (length (recv_buf r))) (CRLF @ CRLF)
            = int (length (recv_buf r)) - 4
        \<and> headers_done_cb r = Some hcb
        \<and> hcb (strncpy (recv_buf r) (length (recv_buf r))) (encoding r) (content_length r)
             (user_data r) = (SOUP_TRANSFER_CONTINUE, SOUP_TRANSFER_CONTENT_LENGTH, 0, u) \<longrightarrow>
        (\<exists>r'. process_read r t
           = Inr (Returned False r',
                  ReadHeadersDone (strncpy (recv_buf r) (length (recv_buf r)))
                  # (case read_done_cb r of None \<Rightarrow> [] | Some dn \<Rightarrow> [ReadDone []]))
         \<and> freed r')"
    using headers_then_length_zero [of r hcb u t] by blast
  show ?thesis
    using a b [of c] d' e by blast
qed

theorem read_content_length_complete_witness:
  "content_length reader_length_zero = 0 \<and> recv_buf reader_length_zero = []
   \<and> encoding reader_length_zero = SOUP_TRANSFER_CONTENT_LENGTH
   \<and> header_len reader_length_zero \<noteq> 0
   \<and> read_content_length reader_length_zero False = (True, reader_length_zero, False, [])
   \<and> (\<exists>r'. process_read reader_length_zero 19 = Inr (Returned False r', [ReadDone []]))
   \<and> fst (read_content_length reader_partial_body False) = False
   \<and> header_len reader_headers_only = 0 \<and> 4 \<le> length (recv_buf reader_headers_only)
   \<and> soup_substring_index (recv_buf reader_headers_only)
        (int (length (recv_buf reader_headers_only))) (CRLF @ CRLF)
       = int (length (recv_buf reader_headers_only)) - 4
   \<and> (\<exists>r'. process_read reader_headers_only 19
              = Inr (Returned False r', [ReadHeadersDone http_ok, ReadDone []]) \<and> freed r')"
proof -
  have a: "content_length reader_length_zero = 0" "recv_buf reader_length_zero = []"
    "encoding reader_length_zero = SOUP_TRANSFER_CONTENT_LENGTH"
    "header_len reader_length_zero \<noteq> 0" "read_done_cb reader_length_zero \<noteq> None"
    by (simp_all add: reader_length_zero_def example_reader_def soup_transfer_read_def)
  have b: "content_length reader_partial_body = 5" "recv_buf reader_partial_body = ''he''"
    by code_simp+
  have h: "header_len reader_headers_only = 0" "recv_buf reader_headers_only = http_ok"
    "headers_done_cb reader_headers_only
       = Some (count_headers_cb SOUP_TRANSFER_CONTENT_LENGTH 0)"
    "read_done_cb reader_headers_only \<noteq> None"
    "encoding reader_headers_only = SOUP_TRANSFER_UNKNOWN"
    "content_length reader_headers_only = 0" "user_data reader_headers_only = 0"
    by (simp_all add: reader_headers_only_def example_reader_def soup_transfer_read_def)
  have l: "length http_ok = 19" by (simp add: http_ok_def CRLF_def)
  have i: "soup_substring_index http_ok 19 (CRLF @ CRLF) = 15" by code_simp
  have s: "strncpy http_ok 19 = http_ok" by code_simp
  have k: "count_headers_cb SOUP_TRANSFER_CONTENT_LENGTH 0 (strncpy http_ok 19)
             SOUP_TRANSFER_UNKNOWN 0 0
           = (SOUP_TRANSFER_CONTINUE, SOUP_TRANSFER_CONTENT_LENGTH, 0, Suc 0)"
    by (simp add: count_headers_cb_def)
  show ?thesis
    using read_content_length_complete [of reader_length_zero False 19]
      read_content_length_complete [of reader_partial_body False 0]
      read_content_length_complete [of reader_headers_only False 19
        "count_headers_cb SOUP_TRANSFER_CONTENT_LENGTH 0" "Suc 0"]
      a b h l i s k
    by (auto split: prod.splits)
qed

text \<open>
  C3. A read that returns success with zero bytes should be handled as a hangup is: the
  final delivery when the encoding is \<open>Unknown\<close>, an error otherwise. The code sends it to
  \<open>PROCESS_READ\<close>, where \<open>total_read == 0\<close> sets \<open>read_done\<close> before the encoding is looked
  at: a reader told \<open>Content-Length: 5\<close> that holds \<open>he\<close> answers the zero-byte read with the
  final delivery of the truncated body \<open>he\<close>, returns \<open>FALSE\<close> and is freed, and its error
  callback never runs. The hangup handler, on the same reader, calls the error callback.
\<close>

theorem zero_read_delivers_truncated_body:
  "encoding reader_partial_body = SOUP_TRANSFER_CONTENT_LENGTH
   \<and> content_length reader_partial_body = 5
   \<and> recv_buf reader_partial_body = ''he''
   \<and> run_events (soup_transfer_read_cb reader_partial_body [ReadOk []]) = Some [ReadDone ''he'']
   \<and> run_returns (soup_transfer_read_cb reader_partial_body [ReadOk []]) = Some False
   \<and> freed (reader_after reader_partial_body [ReadOk []])
   \<and> snd (soup_transfer_read_error_cb reader_partial_body) = [ReadError False]"
  by code_simp

text \<open>
  With the headers delivered and the encoding \<open>Unknown\<close>, the zero-byte read, first in its
  handler run, does what the hangup handler does: the final delivery and the cancel.
\<close>

lemma zero_read_unknown_as_hangup:
  assumes "header_len r \<noteq> 0" and "encoding r = SOUP_TRANSFER_UNKNOWN"
  shows "soup_transfer_read_cb r (ReadOk [] # chan)
           = Inr (False, fst (soup_transfer_read_error_cb r), chan,
                  snd (soup_transfer_read_error_cb r))
       \<and> fst (soup_transfer_read_error_cb r)
           = soup_transfer_read_cancel (fst (issue_final_callback r))
       \<and> snd (soup_transfer_read_error_cb r)
           = (case read_done_cb r of None \<Rightarrow> [] | Some cb \<Rightarrow> [ReadDone (recv_buf r)])"
proof -
  have p: "process_read r 0
           = Inr (Returned False (soup_transfer_read_cancel (fst (issue_final_callback r))),
                  snd (issue_final_callback r))"
    using assms(1) by (simp add: process_read_def split: prod.splits)
  have z: "soup_transfer_read_cb r (ReadOk [] # chan)
        = Inr (False, soup_transfer_read_cancel (fst (issue_final_callback r)), chan,
               snd (issue_final_callback r))"
    unfolding soup_transfer_read_cb_def
    by (subst soup_transfer_read_cb_loop.simps)
       (simp add: g_io_channel_read_def read_action_def p)
  have h: "soup_transfer_read_error_cb r
        = (soup_transfer_read_cancel (fst (issue_final_callback r)),
           snd (issue_final_callback r))"
    using assms(2) by (simp add: soup_transfer_read_error_cb_def split: prod.splits)
  show ?thesis using z h issue_final_callback_trace [of r] by simp
qed




section \<open>The writer: claims\<close>

text \<open>
  C1. A chunked writer with header bytes \<open>h\<close> whose producer yields \<open>hi\<close> and then an empty
  buffer with \<open>End\<close> should put \<open>h 2 CRLF hi CRLF 0 CRLF CRLF\<close> on the channel. The code,
  on a channel that takes every byte offered, puts \<open>h CRLF 2 CRLF hi\<close> there: the first
  chunk gets the leading CRLF of a later chunk, since \<open>chunk_cnt\<close>, still zero, is passed as
  the flag \<open>first_chunk\<close>; and the terminator \<open>CRLF 0 CRLF\<close>, which lacks the closing CRLF,
  is appended to the staging buffer just before the writer is cancelled, so it is freed
  with the buffer and never written. With a second chunk \<open>you\<close> the channel gets
  \<open>h CRLF 2 CRLF hi 3 CRLF you\<close>: no CRLF between the first body and the second length.
\<close>

theorem chunked_writer_output:
  "w_write_buf hi_writer = http_post @ CRLF @ ''2'' @ CRLF @ ''hi''
   \<and> write_sent (soup_transfer_write_cb hi_writer [WriteOk 1000])
       = Some (http_post @ CRLF @ ''2'' @ CRLF @ ''hi'')
   \<and> http_post @ CRLF @ ''2'' @ CRLF @ ''hi''
       \<noteq> http_post @ ''2'' @ CRLF @ ''hi'' @ CRLF @ ''0'' @ CRLF @ CRLF
   \<and> write_events (soup_transfer_write_cb hi_writer [WriteOk 1000])
       = Some [WriteHeadersDone, WriteChunkRequested, WriteDone]
   \<and> w_write_buf (writer_after hi_writer [WriteOk 1000]) = CRLF @ ''0'' @ CRLF
   \<and> w_write_buf_state (writer_after hi_writer [WriteOk 1000]) = FreedWithSegment
   \<and> w_freed (writer_after hi_writer [WriteOk 1000])
   \<and> write_sent (soup_transfer_write_cb hi_you_writer [WriteOk 1000, WriteOk 1000])
       = Some (http_post @ CRLF @ ''2'' @ CRLF @ ''hi'' @ ''3'' @ CRLF @ ''you'')"
  by code_simp

text \<open>
  C4. The headers-done callback should fire at the first write that brings the total
  written to \<open>header_len\<close>. The code compares the count of each single write with
  \<open>header_len\<close>: when the channel takes the four header bytes \<open>HEAD\<close> two at a time, all of
  them are written, the transfer completes, and the callback has never fired; taken in one
  write, it fires.
\<close>

theorem headers_done_missed_on_partial_writes:
  "w_header_len head_writer = 4
   \<and> write_sent (soup_transfer_write_cb head_writer [WriteOk 2, WriteOk 2]) = Some ''HEAD''
   \<and> write_events (soup_transfer_write_cb head_writer [WriteOk 2, WriteOk 2]) = Some [WriteDone]
   \<and> \<not> w_headers_done (writer_after head_writer [WriteOk 2, WriteOk 2])
   \<and> write_events (soup_transfer_write_cb head_writer [WriteOk 4])
       = Some [WriteHeadersDone, WriteDone]"
  by code_simp

section \<open>Cancelling from inside a callback\<close>

text \<open>
  C8. \<open>soup_transfer_read_cancel\<close> on a reader whose \<open>processing\<close> flag is set, and
  \<open>soup_transfer_write_cancel\<close> on such a writer, return at once and leave the whole state
  as it is: both watches stay installed, the buffer stays allocated, every field keeps its
  value.
\<close>

theorem cancel_suppressed_while_processing:
  "(processing r \<longrightarrow> soup_transfer_read_cancel r = r)
   \<and> (w_processing w \<longrightarrow> soup_transfer_write_cancel w = w)"
  by (simp add: soup_transfer_read_cancel_def soup_transfer_write_cancel_def)

theorem cancel_suppressed_while_processing_witness:
  "processing reader_in_callback
   \<and> read_tag (soup_transfer_read_cancel reader_in_callback)
   \<and> err_tag (soup_transfer_read_cancel reader_in_callback)
   \<and> recv_buf_state (soup_transfer_read_cancel reader_in_callback) = Allocated
   \<and> \<not> freed (soup_transfer_read_cancel reader_in_callback)
   \<and> w_processing writer_in_callback
   \<and> w_write_tag (soup_transfer_write_cancel writer_in_callback)
   \<and> w_err_tag (soup_transfer_write_cancel writer_in_callback)
   \<and> w_write_buf_state (soup_transfer_write_cancel writer_in_callback) = Allocated
   \<and> \<not> w_freed (soup_transfer_write_cancel writer_in_callback)"
proof -
  have a: "processing reader_in_callback" "read_tag reader_in_callback"
    "err_tag reader_in_callback" "recv_buf_state reader_in_callback = Allocated"
    "\<not> freed reader_in_callback"
    by (simp_all add: reader_in_callback_def example_reader_def soup_transfer_read_def)
  have b: "w_processing writer_in_callback" "w_write_tag writer_in_callback"
    "w_err_tag writer_in_callback" "w_write_buf_state writer_in_callback = Allocated"
    "\<not> w_freed writer_in_callback"
    by (simp_all add: writer_in_callback_def head_writer_def soup_transfer_write_def
        g_byte_array_append_def)
  show ?thesis
    using cancel_suppressed_while_processing [of reader_in_callback writer_in_callback] a b
    by simp
qed

end
